theory Spec2Isabelle
  imports Complex_Main
begin

section \<open>Data model\<close>

text \<open>
  The pipeline of \<^verbatim>\<open>Part_3_and_4/data_quality_checks_and_batch_loading.py\<close> reads a JSON
  array of sales records, flattens it into a pandas DataFrame, repairs and flags defects,
  and loads three projections into a relational store.

  A DataFrame is a list of rows, a row a record of its columns, a null (\<^verbatim>\<open>None\<close>,
  \<^verbatim>\<open>NaN\<close>) the value \<open>None\<close>. A column operation of pandas is the same operation on
  every row. JSON numbers are exact: a quantity is an \<open>int\<close>, a price or a line total a
  \<open>rat\<close>, so the rounding of binary floating point is outside this model. Strings are
  lists of 8-bit characters.

  Exceptions are values of \<open>py_error\<close>; a function that can raise returns
  \<open>py_error + 'a\<close>, with \<open>Inl\<close> the exception.
\<close>

datatype py_error =
    KeyError string
  | ValueError
  | TypeError
  | OverflowError
  | ZeroDivisionError
  | DatabaseError

text \<open>
  The \<^verbatim>\<open>price\<close> of a product as the JSON gives it: a number, null, or a value that
  \<^verbatim>\<open>pd.to_numeric(..., errors='coerce')\<close> cannot read as a number (a text such as
  \<^verbatim>\<open>"abc"\<close>).
\<close>

datatype json_price = PriceNum rat | PriceNull | PriceNonNumeric

text \<open>The nested \<^verbatim>\<open>product\<close> mapping, with its four keys.\<close>

record product_map =
  prod_id :: "string option"
  prod_name :: "string option"
  prod_category :: "string option"
  prod_price :: json_price

text \<open>
  What a record holds under the key \<^verbatim>\<open>product\<close>: nothing (the key is absent), a
  value that is no mapping (null, say), or the mapping.
\<close>

datatype product_field = NoProductKey | NotAMapping | ProductMapping product_map

text \<open>The scalar fields every stage carries.\<close>

record txn_base =
  transaction_id :: "string option"
  customer_id :: "string option"
  quantity :: "int option"
  date :: "string option"
  region :: "string option"

record raw_record = txn_base +
  product :: product_field

text \<open>The table \<^verbatim>\<open>_initial_prep\<close> returns.\<close>

record prep_row = txn_base +
  product_id :: "string option"
  product_name :: "string option"
  category :: "string option"
  price :: "rat option"
  date_std :: "string option"
  total_value :: "rat option"
  had_date_format_issue :: bool

text \<open>The table of \<^verbatim>\<open>DataQualityChecker.perform_checks\<close>: three more flag columns.\<close>

record working_row = prep_row +
  has_missing_customer :: bool
  had_negative_quantity :: bool
  has_suspicious_values :: bool


section \<open>Extraction\<close>

text \<open>
  The input file as \<^verbatim>\<open>DataExtractor.from_json\<close> finds it: no file at the path, a
  file \<^verbatim>\<open>json.load\<close> raises on, or a JSON array of records.
\<close>

datatype input_file = FileNotFound | MalformedContent | JsonArray "raw_record list"

fun from_json :: "input_file \<Rightarrow> raw_record list" where
  "from_json FileNotFound = []"
| "from_json MalformedContent = []"
| "from_json (JsonArray data) = data"


section \<open>Date standardisation\<close>

text \<open>
  \<^verbatim>\<open>\s\<close> and \<^verbatim>\<open>str.strip\<close> on the ASCII range: tab, line feed, vertical tab, form
  feed, carriage return, the four separators \<^verbatim>\<open>0x1c\<close> to \<^verbatim>\<open>0x1f\<close>, and space.
\<close>

definition is_space :: "char \<Rightarrow> bool" where
  "is_space c \<longleftrightarrow>
     c \<in> set [CHR 0x09, CHR 0x0A, CHR 0x0B, CHR 0x0C, CHR 0x0D,
               CHR 0x1C, CHR 0x1D, CHR 0x1E, CHR 0x1F, CHR 0x20]"

definition is_digit :: "char \<Rightarrow> bool" where
  "is_digit c \<longleftrightarrow> c \<in> set ''0123456789''"

definition strip :: "string \<Rightarrow> string" where
  "strip s = rev (dropWhile is_space (rev (dropWhile is_space s)))"

text \<open>
  One match of \<^verbatim>\<open>(\d{2})\s+(\d{2})([-/\s])\<close> at the head of the text: the replacement
  \<^verbatim>\<open>\1\2\3\<close> and the text after the match. After the run of white space the pattern
  wants a digit, so the greedy \<^verbatim>\<open>\s+\<close> takes the whole run and never gives back.
\<close>

fun match_split_year :: "string \<Rightarrow> (string \<times> string) option" where
  "match_split_year (a # b # cs) =
     (if is_digit a \<and> is_digit b \<and> takeWhile is_space cs \<noteq> [] then
        (case dropWhile is_space cs of
           c # d # e # rest \<Rightarrow>
             if is_digit c \<and> is_digit d \<and> (e = CHR ''-'' \<or> e = CHR ''/'' \<or> is_space e)
             then Some ([a, b, c, d, e], rest)
             else None
         | _ \<Rightarrow> None)
      else None)"
| "match_split_year _ = None"

lemma match_split_year_shorter:
  "match_split_year s = Some (rep, rest) \<Longrightarrow> length rest < length s"
proof (cases s rule: match_split_year.cases)
  case (1 a b cs)
  assume m: "match_split_year s = Some (rep, rest)"
  have "length (dropWhile is_space cs) \<le> length cs"
    by (rule length_dropWhile_le)
  with m 1 show ?thesis
    by (auto split: if_splits list.splits)
qed simp_all

text \<open>\<^verbatim>\<open>re.sub(r'(\d{2})\s+(\d{2})([-/\s])', r'\1\2\3', s)\<close>: leftmost matches, not overlapping.\<close>

function sub_split_year :: "string \<Rightarrow> string" where
  "sub_split_year [] = []"
| "sub_split_year (c # cs) =
     (case match_split_year (c # cs) of
        Some (rep, rest) \<Rightarrow> rep @ sub_split_year rest
      | None \<Rightarrow> c # sub_split_year cs)"
  by pat_completeness auto
termination
  by (relation "measure length") (auto dest: match_split_year_shorter)

text \<open>\<^verbatim>\<open>re.sub(r'\s+', '-', s)\<close>: every run of white space becomes one hyphen.\<close>

function sub_whitespace :: "string \<Rightarrow> string" where
  "sub_whitespace [] = []"
| "sub_whitespace (c # cs) =
     (if is_space c then CHR ''-'' # sub_whitespace (dropWhile is_space cs)
      else c # sub_whitespace cs)"
  by pat_completeness auto
termination
  by (relation "measure length") (auto simp: length_dropWhile_le less_Suc_eq_le)

text \<open>
  \<^verbatim>\<open>DataTransformer.standardize_date\<close>. The expression
  \<^verbatim>\<open>date_parser.parse(s, fuzzy=True, ignoretz=True).strftime("%Y-%m-%d")\<close> belongs to the
  dateutil library and is the parameter \<open>parse\<close>: the formatted date, or the exception
  raised. dateutil's \<^verbatim>\<open>ParserError\<close> is a \<^verbatim>\<open>ValueError\<close>.

  The first handler is \<^verbatim>\<open>except (ValueError, TypeError)\<close>, so any other exception of the
  first parse leaves the function; the second is \<^verbatim>\<open>except Exception\<close>.
\<close>

type_synonym date_parser = "string \<Rightarrow> py_error + string"

definition standardize_date :: "date_parser \<Rightarrow> string option \<Rightarrow> py_error + string option" where
  "standardize_date parse date_str =
     (case date_str of
        None \<Rightarrow> Inr None
      | Some s0 \<Rightarrow>
          (let s = strip s0 in
           case parse s of
             Inr d \<Rightarrow> Inr (Some d)
           | Inl e \<Rightarrow>
               if e = ValueError \<or> e = TypeError then
                 (case parse (sub_whitespace (sub_split_year s)) of
                    Inr d \<Rightarrow> Inr (Some d)
                  | Inl _ \<Rightarrow> Inr None)
               else Inl e))"

text \<open>\<^verbatim>\<open>df['date'].apply(DataTransformer.standardize_date)\<close>: the first exception ends the loop.\<close>

fun apply_standardize_date ::
  "date_parser \<Rightarrow> string option list \<Rightarrow> py_error + string option list" where
  "apply_standardize_date parse [] = Inr []"
| "apply_standardize_date parse (d # ds) =
     (case standardize_date parse d of
        Inl e \<Rightarrow> Inl e
      | Inr v \<Rightarrow>
          (case apply_standardize_date parse ds of
             Inl e \<Rightarrow> Inl e
           | Inr vs \<Rightarrow> Inr (v # vs)))"


section \<open>Normalisation and derived fields\<close>

text \<open>
  \<^verbatim>\<open>pd.json_normalize(data)\<close> has one row per record and one column per key that some
  record holds; a row is null in the columns its record lacks. The product mapping of a
  record becomes the columns \<^verbatim>\<open>product.id\<close>, \<^verbatim>\<open>product.name\<close>,
  \<^verbatim>\<open>product.category\<close> and \<^verbatim>\<open>product.price\<close>; a product that is no mapping stays in
  a column \<^verbatim>\<open>product\<close>. So \<^verbatim>\<open>'product.id' in df.columns\<close> holds when some record
  has the mapping, and the column \<^verbatim>\<open>product\<close> exists when some record has the key with
  a value that is no mapping.
\<close>

definition is_mapping :: "product_field \<Rightarrow> bool" where
  "is_mapping p = (case p of ProductMapping _ \<Rightarrow> True | _ \<Rightarrow> False)"

type_synonym product_cells = "string option \<times> string option \<times> string option \<times> json_price"

text \<open>The four product cells of one row; null where the record has no mapping.\<close>

definition product_cells_of :: "product_field \<Rightarrow> product_cells" where
  "product_cells_of p =
     (case p of
        ProductMapping m \<Rightarrow> (prod_id m, prod_name m, prod_category m, prod_price m)
      | _ \<Rightarrow> (None, None, None, PriceNull))"

text \<open>
  The first block of \<^verbatim>\<open>_initial_prep\<close>: rename the flattened columns, or else read
  them from the column \<^verbatim>\<open>product\<close> with
  \<^verbatim>\<open>x.get(col, None) if isinstance(x, dict) else None\<close>. \<^verbatim>\<open>df['product']\<close> raises
  \<^verbatim>\<open>KeyError\<close> when the table has no such column.
\<close>

definition flatten_product :: "raw_record list \<Rightarrow> py_error + product_cells list" where
  "flatten_product data =
     (if list_ex (\<lambda>r. is_mapping (product r)) data then
        Inr (map (\<lambda>r. product_cells_of (product r)) data)
      else if list_ex (\<lambda>r. product r = NotAMapping) data then
        Inr (map (\<lambda>r. product_cells_of (product r)) data)
      else Inl (KeyError ''product''))"

definition fillna :: "'a \<Rightarrow> 'a option \<Rightarrow> 'a option" where
  "fillna v x = (case x of None \<Rightarrow> Some v | Some y \<Rightarrow> Some y)"

text \<open>\<^verbatim>\<open>pd.to_numeric(df['price'], errors='coerce')\<close> on one cell.\<close>

definition to_numeric :: "json_price \<Rightarrow> rat option" where
  "to_numeric p = (case p of PriceNum v \<Rightarrow> Some v | _ \<Rightarrow> None)"

text \<open>\<^verbatim>\<open>df['quantity'] * df['price']\<close> on one row: null when either operand is.\<close>

definition times_price :: "int option \<Rightarrow> rat option \<Rightarrow> rat option" where
  "times_price q p =
     (case q of
        None \<Rightarrow> None
      | Some n \<Rightarrow> (case p of None \<Rightarrow> None | Some v \<Rightarrow> Some (of_int n * v)))"

text \<open>
  \<^verbatim>\<open>df['date'] != df['date_std']\<close> on one row of two object columns: pandas answers
  \<^verbatim>\<open>True\<close> when either side is null.
\<close>

definition ne_object :: "string option \<Rightarrow> string option \<Rightarrow> bool" where
  "ne_object a b =
     (case a of
        None \<Rightarrow> True
      | Some x \<Rightarrow> (case b of None \<Rightarrow> True | Some y \<Rightarrow> x \<noteq> y))"

text \<open>One row of the table \<^verbatim>\<open>_initial_prep\<close> returns.\<close>

definition prep_row_of :: "raw_record \<Rightarrow> product_cells \<Rightarrow> string option \<Rightarrow> prep_row" where
  "prep_row_of r cells std =
     (case cells of (pid, pname, cat, pr) \<Rightarrow>
        \<lparr> transaction_id = transaction_id r,
          customer_id = fillna ''GUEST'' (customer_id r),
          quantity = quantity r,
          date = date r,
          region = region r,
          product_id = pid,
          product_name = pname,
          category = cat,
          price = to_numeric pr,
          date_std = std,
          total_value = times_price (quantity r) (to_numeric pr),
          had_date_format_issue = ne_object (date r) std \<rparr>)"

definition initial_prep :: "date_parser \<Rightarrow> raw_record list \<Rightarrow> py_error + prep_row list" where
  "initial_prep parse data =
     (case flatten_product data of
        Inl e \<Rightarrow> Inl e
      | Inr cells \<Rightarrow>
          (case apply_standardize_date parse (map date data) of
             Inl e \<Rightarrow> Inl e
           | Inr stds \<Rightarrow>
               Inr (map (\<lambda>(r, c, std). prep_row_of r c std) (zip data (zip cells stds)))))"


section \<open>Data quality checks\<close>

text \<open>A comparison with a null is false, as with \<^verbatim>\<open>NaN\<close>.\<close>

definition is_lt :: "'a::linorder option \<Rightarrow> 'a \<Rightarrow> bool" where
  "is_lt x c = (case x of None \<Rightarrow> False | Some v \<Rightarrow> v < c)"

definition is_le :: "'a::linorder option \<Rightarrow> 'a \<Rightarrow> bool" where
  "is_le x c = (case x of None \<Rightarrow> False | Some v \<Rightarrow> v \<le> c)"

definition is_gt :: "'a::linorder option \<Rightarrow> 'a \<Rightarrow> bool" where
  "is_gt x c = (case x of None \<Rightarrow> False | Some v \<Rightarrow> c < v)"

text \<open>\<^verbatim>\<open>mask.sum()\<close>: the number of rows the mask holds on.\<close>

definition mask_sum :: "('r \<Rightarrow> bool) \<Rightarrow> 'r list \<Rightarrow> nat" where
  "mask_sum pred df = length (filter pred df)"

text \<open>The three flag columns \<^verbatim>\<open>perform_checks\<close> adds, all \<^verbatim>\<open>False\<close>.\<close>

definition with_flags :: "prep_row \<Rightarrow> working_row" where
  "with_flags r =
     \<lparr> transaction_id = transaction_id r,
       customer_id = customer_id r,
       quantity = quantity r,
       date = date r,
       region = region r,
       product_id = product_id r,
       product_name = product_name r,
       category = category r,
       price = price r,
       date_std = date_std r,
       total_value = total_value r,
       had_date_format_issue = had_date_format_issue r,
       has_missing_customer = False,
       had_negative_quantity = False,
       has_suspicious_values = False \<rparr>"

definition init_flags :: "prep_row list \<Rightarrow> working_row list" where
  "init_flags df = map with_flags df"

text \<open>
  Each check takes the table and returns it with its count: the Python functions get the
  DataFrame by reference, so a check that only counts is one that returns the table as
  it got it.
\<close>

type_synonym quality_check = "working_row list \<Rightarrow> working_row list \<times> nat"

definition check_missing_customer :: quality_check where
  "check_missing_customer df =
     (let missing = (\<lambda>r. customer_id r = None);
          count = mask_sum missing df
      in if count > 0 then
           (map (\<lambda>r. r\<lparr> has_missing_customer := missing r,
                         customer_id := fillna ''Unknown'' (customer_id r) \<rparr>) df, count)
         else (df, count))"

definition check_negative_quantities :: quality_check where
  "check_negative_quantities df =
     (let negative = (\<lambda>r. is_lt (quantity r) 0);
          count = mask_sum negative df
      in if count > 0 then
           (map (\<lambda>r. r\<lparr> had_negative_quantity := negative r,
                         quantity := map_option abs (quantity r) \<rparr>) df, count)
         else (df, count))"

text \<open>\<^verbatim>\<open>duplicated(keep=False)\<close>: every row whose id stands in another row too.\<close>

definition check_duplicate_transactions :: quality_check where
  "check_duplicate_transactions df =
     (let ids = map transaction_id df;
          duplicates = (\<lambda>r. 1 < count_list ids (transaction_id r))
      in (df, mask_sum duplicates df))"

definition check_missing_product_info :: quality_check where
  "check_missing_product_info df =
     (let missing = (\<lambda>r. product_id r = None \<or> product_name r = None \<or> price r = None)
      in (df, mask_sum missing df))"

definition check_invalid_prices :: quality_check where
  "check_invalid_prices df =
     (let invalid = (\<lambda>r. is_le (price r) 0 \<or> price r = None)
      in (df, mask_sum invalid df))"

definition check_date_issues :: quality_check where
  "check_date_issues df =
     (let issues = (\<lambda>r. date_std r = None \<and> date r \<noteq> None);
          count = mask_sum issues df
      in if count > 0 then
           (map (\<lambda>r. r\<lparr> had_date_format_issue := issues r \<rparr>) df, count)
         else (df, count))"

definition check_missing_transaction_ids :: quality_check where
  "check_missing_transaction_ids df =
     (let missing = (\<lambda>r. transaction_id r = None)
      in (df, mask_sum missing df))"

definition suspicious :: "working_row \<Rightarrow> bool" where
  "suspicious r \<longleftrightarrow>
     is_gt (quantity r) 1000 \<or> is_lt (price r) (1 / 100) \<or> is_gt (total_value r) 100000"

definition check_suspicious_values :: quality_check where
  "check_suspicious_values df =
     (let count = mask_sum suspicious df
      in if count > 0 then
           (map (\<lambda>r. r\<lparr> has_suspicious_values := suspicious r \<rparr>) df, count)
         else (df, count))"

text \<open>The eight checks in the order \<^verbatim>\<open>perform_checks\<close> calls them.\<close>

definition detectors :: "quality_check list" where
  "detectors =
     [check_missing_customer, check_negative_quantities, check_duplicate_transactions,
      check_missing_product_info, check_invalid_prices, check_date_issues,
      check_missing_transaction_ids, check_suspicious_values]"

text \<open>Running checks one after the other: the final table and the counts.\<close>

fun run_checks :: "quality_check list \<Rightarrow> working_row list \<Rightarrow> working_row list \<times> nat list" where
  "run_checks [] df = (df, [])"
| "run_checks (c # cs) df =
     (case c df of (df1, n) \<Rightarrow>
        (case run_checks cs df1 of (df2, ns) \<Rightarrow> (df2, n # ns)))"

text \<open>The table before the first check and after each check.\<close>

fun check_states :: "quality_check list \<Rightarrow> working_row list \<Rightarrow> working_row list list" where
  "check_states [] df = [df]"
| "check_states (c # cs) df = df # check_states cs (fst (c df))"

definition perform_checks :: "prep_row list \<Rightarrow> working_row list \<times> nat list" where
  "perform_checks df = run_checks detectors (init_flags df)"

definition transform :: "date_parser \<Rightarrow> raw_record list \<Rightarrow> py_error + working_row list" where
  "transform parse data =
     (case initial_prep parse data of
        Inl e \<Rightarrow> Inl e
      | Inr df \<Rightarrow> Inr (fst (perform_checks df)))"


section \<open>The three projections\<close>

text \<open>\<^verbatim>\<open>drop_duplicates()\<close> keeps the first of equal rows; two nulls are equal.\<close>

fun drop_duplicates :: "'a list \<Rightarrow> 'a list" where
  "drop_duplicates [] = []"
| "drop_duplicates (x # xs) = x # drop_duplicates (filter (\<lambda>y. y \<noteq> x) xs)"

definition prepare_customers_df :: "working_row list \<Rightarrow> string option list" where
  "prepare_customers_df df = drop_duplicates (filter (\<lambda>c. c \<noteq> None) (map customer_id df))"

type_synonym product_row = "string option \<times> string option \<times> string option \<times> rat option"

definition prepare_products_df :: "working_row list \<Rightarrow> product_row list" where
  "prepare_products_df df =
     filter (\<lambda>p. fst p \<noteq> None)
       (drop_duplicates (map (\<lambda>r. (product_id r, product_name r, category r, price r)) df))"

text \<open>
  A row of the transactions table. \<^verbatim>\<open>pd.to_datetime(..., errors='coerce')\<close> belongs to
  pandas and is the parameter \<open>to_datetime\<close>, from the text of \<^verbatim>\<open>date_std\<close> to a
  calendar date of type \<open>'d\<close> or null.
\<close>

record 'd transaction_row = txn_base +
  tx_product_id :: "string option"
  tx_date_std :: "'d option"
  tx_total_value :: "rat option"
  tx_has_missing_customer :: bool
  tx_had_negative_quantity :: bool
  tx_had_date_format_issue :: bool
  tx_has_suspicious_values :: bool

definition transaction_of :: "(string \<Rightarrow> 'd option) \<Rightarrow> working_row \<Rightarrow> 'd transaction_row" where
  "transaction_of to_datetime r =
     \<lparr> transaction_id = transaction_id r,
       customer_id = customer_id r,
       quantity = quantity r,
       date = date r,
       region = region r,
       tx_product_id = product_id r,
       tx_date_std = (case date_std r of None \<Rightarrow> None | Some s \<Rightarrow> to_datetime s),
       tx_total_value = total_value r,
       tx_has_missing_customer = has_missing_customer r,
       tx_had_negative_quantity = had_negative_quantity r,
       tx_had_date_format_issue = had_date_format_issue r,
       tx_has_suspicious_values = has_suspicious_values r \<rparr>"

definition prepare_transactions_df ::
  "(string \<Rightarrow> 'd option) \<Rightarrow> working_row list \<Rightarrow> 'd transaction_row list" where
  "prepare_transactions_df to_datetime df = map (transaction_of to_datetime) df"


section \<open>Batch loading\<close>

text \<open>
  The store belongs to the database: \<open>to_sql name rows db\<close> is one
  \<^verbatim>\<open>batch_df.to_sql(name=..., if_exists='append', ...)\<close> on the store \<open>db\<close>. It answers
  whether the write went through (\<open>False\<close>: it raised) and the store it leaves.
\<close>

datatype 'd sql_row =
    CustomerRow "string option"
  | ProductRow product_row
  | TransactionRow "'d transaction_row"

type_synonym ('d, 'db) to_sql = "string \<Rightarrow> 'd sql_row list \<Rightarrow> 'db \<Rightarrow> bool \<times> 'db"

text \<open>
  The loop \<^verbatim>\<open>for i in range(0, total_rows, batch_size)\<close> of
  \<^verbatim>\<open>_load_table_in_batches\<close> from index \<open>i\<close> on, for a positive step. A write that
  raises ends it: \<open>Inl\<close> holds the exception and the store at that moment.
\<close>

function load_batches_from ::
  "('d, 'db) to_sql \<Rightarrow> string \<Rightarrow> 'd sql_row list \<Rightarrow> nat \<Rightarrow> nat \<Rightarrow> 'db
     \<Rightarrow> (py_error \<times> 'db) + 'db" where
  "load_batches_from to_sql name df batch_size i db =
     (if 0 < batch_size \<and> i < length df then
        (case to_sql name (take batch_size (drop i df)) db of
           (False, db1) \<Rightarrow> Inl (DatabaseError, db1)
         | (True, db1) \<Rightarrow> load_batches_from to_sql name df batch_size (i + batch_size) db1)
      else Inr db)"
  by pat_completeness auto
termination
  by (relation "measure (\<lambda>(to_sql, name, df, batch_size, i, db). length df - i)") auto

text \<open>
  \<^verbatim>\<open>_load_table_in_batches\<close>. An empty table returns at once. With \<^verbatim>\<open>batch_size\<close> zero
  the count \<^verbatim>\<open>(total_rows + batch_size - 1) // batch_size\<close> raises; with a negative one
  the \<^verbatim>\<open>range\<close> is empty.
\<close>

definition load_table_in_batches ::
  "('d, 'db) to_sql \<Rightarrow> 'd sql_row list \<Rightarrow> string \<Rightarrow> int \<Rightarrow> 'db \<Rightarrow> (py_error \<times> 'db) + 'db" where
  "load_table_in_batches to_sql df name batch_size db =
     (if df = [] then Inr db
      else if batch_size = 0 then Inl (ZeroDivisionError, db)
      else if batch_size < 0 then Inr db
      else load_batches_from to_sql name df (nat batch_size) 0 db)"

text \<open>
  \<^verbatim>\<open>load_with_batch_processing\<close>: \<open>engine_ok\<close> says whether
  \<^verbatim>\<open>create_sqlalchemy_engine\<close> gave an engine. Any exception of the three loads is caught
  and the answer is \<^verbatim>\<open>False\<close>.
\<close>

definition load_with_batch_processing ::
  "bool \<Rightarrow> ('d, 'db) to_sql \<Rightarrow> (string \<Rightarrow> 'd option) \<Rightarrow> working_row list \<Rightarrow> int \<Rightarrow> 'db
     \<Rightarrow> bool \<times> 'db" where
  "load_with_batch_processing engine_ok to_sql to_datetime df batch_size db =
     (if \<not> engine_ok then (False, db)
      else
        (let customers_df = map CustomerRow (prepare_customers_df df);
             products_df = map ProductRow (prepare_products_df df);
             transactions_df = map TransactionRow (prepare_transactions_df to_datetime df)
         in case load_table_in_batches to_sql customers_df ''customers'' batch_size db of
              Inl (e, db1) \<Rightarrow> (False, db1)
            | Inr db1 \<Rightarrow>
                (case load_table_in_batches to_sql products_df ''products'' batch_size db1 of
                   Inl (e, db2) \<Rightarrow> (False, db2)
                 | Inr db2 \<Rightarrow>
                     (case load_table_in_batches to_sql transactions_df ''transactions''
                             batch_size db2 of
                        Inl (e, db3) \<Rightarrow> (False, db3)
                      | Inr db3 \<Rightarrow> (True, db3)))))"


section \<open>The pipeline\<close>

datatype stage = SchemaSetup | Extraction | Transformation | BatchLoading | Analytics

text \<open>
  \<^verbatim>\<open>ETLPipeline.run\<close>: what it returns (or the exception that leaves it), the stages it
  entered, in order, and the store it leaves. \<open>schema_ok\<close> is the answer of
  \<^verbatim>\<open>create_schema_and_indexes\<close>. The analytics queries only read, and their answer is
  dropped.
\<close>

definition run ::
  "bool \<Rightarrow> input_file \<Rightarrow> date_parser \<Rightarrow> bool \<Rightarrow> ('d, 'db) to_sql \<Rightarrow> (string \<Rightarrow> 'd option)
     \<Rightarrow> int \<Rightarrow> bool \<Rightarrow> 'db \<Rightarrow> (py_error + bool) \<times> stage list \<times> 'db" where
  "run schema_ok input parse engine_ok to_sql to_datetime batch_size run_analytics db =
     (if \<not> schema_ok then (Inr False, [SchemaSetup], db)
      else
        (let data = from_json input in
         if data = [] then (Inr False, [SchemaSetup, Extraction], db)
         else
           (case transform parse data of
              Inl e \<Rightarrow> (Inl e, [SchemaSetup, Extraction, Transformation], db)
            | Inr df \<Rightarrow>
                if df = [] then (Inr False, [SchemaSetup, Extraction, Transformation], db)
                else
                  (case load_with_batch_processing engine_ok to_sql to_datetime df batch_size db of
                     (False, db1) \<Rightarrow>
                       (Inr False, [SchemaSetup, Extraction, Transformation, BatchLoading], db1)
                   | (True, db1) \<Rightarrow>
                       (Inr True,
                        [SchemaSetup, Extraction, Transformation, BatchLoading]
                          @ (if run_analytics then [Analytics] else []),
                        db1)))))"


section \<open>Batches as the specification words them\<close>

text \<open>A list cut into consecutive chunks of \<open>n\<close> elements, the last one maybe shorter.\<close>

function chunks :: "nat \<Rightarrow> 'a list \<Rightarrow> 'a list list" where
  "chunks n xs = (if n = 0 \<or> xs = [] then [] else take n xs # chunks n (drop n xs))"
  by pat_completeness auto
termination
  by (relation "measure (\<lambda>(n, xs). length xs)") auto

text \<open>
  Writes issued one after the other, each only after the one before went through; the
  first that fails ends the sequence with \<open>False\<close>.
\<close>

fun write_all :: "('d, 'db) to_sql \<Rightarrow> (string \<times> 'd sql_row list) list \<Rightarrow> 'db \<Rightarrow> bool \<times> 'db" where
  "write_all to_sql [] db = (True, db)"
| "write_all to_sql ((name, rows) # ws) db =
     (case to_sql name rows db of
        (False, db1) \<Rightarrow> (False, db1)
      | (True, db1) \<Rightarrow> write_all to_sql ws db1)"

text \<open>
  A store that is the list of the writes issued to it, with \<open>accepts\<close> deciding from
  that list whether the next write goes through.
\<close>

definition recording ::
  "((string \<times> 'd sql_row list) list \<Rightarrow> bool) \<Rightarrow> ('d, (string \<times> 'd sql_row list) list) to_sql" where
  "recording accepts name rows issued =
     (accepts (issued @ [(name, rows)]), issued @ [(name, rows)])"


section \<open>Sample inputs\<close>

text \<open>
  A parser for the dates of the examples below. Each entry is what dateutil 2.9 answers:
  it reads \<^verbatim>\<open>2023-07-22\<close>, \<^verbatim>\<open>2023-01-05\<close> and \<^verbatim>\<open>01/05/2023\<close> (month first),
  raises \<^verbatim>\<open>OverflowError\<close> on \<^verbatim>\<open>9999999999\<close>, and raises \<^verbatim>\<open>ParserError\<close> on
  \<^verbatim>\<open>20 23-07-22\<close>, \<^verbatim>\<open>not a date\<close> and \<^verbatim>\<open>not-a-date\<close>.
\<close>

definition sample_parser :: date_parser where
  "sample_parser s =
     (if s = ''2023-07-22'' then Inr ''2023-07-22''
      else if s = ''2023-01-05'' then Inr ''2023-01-05''
      else if s = ''01/05/2023'' then Inr ''2023-01-05''
      else if s = ''9999999999'' then Inl OverflowError
      else Inl ValueError)"

definition mouse :: product_field where
  "mouse = ProductMapping \<lparr> prod_id = Some ''P01'', prod_name = Some ''Mouse'',
     prod_category = Some ''Accessories'', prod_price = PriceNum 25 \<rparr>"

text \<open>The record of the end-to-end scenario.\<close>

definition scenario :: "raw_record list" where
  "scenario =
     [\<lparr> transaction_id = Some ''T001'', customer_id = None, quantity = Some (- 3),
        date = Some ''2023-01-05'', region = Some ''North'', product = mouse \<rparr>]"

definition sale :: "string \<Rightarrow> string option \<Rightarrow> int \<Rightarrow> string \<Rightarrow> product_field \<Rightarrow> raw_record" where
  "sale tid cust qty day item =
     \<lparr> transaction_id = Some tid, customer_id = cust, quantity = Some qty,
       date = Some day, region = Some ''South'', product = item \<rparr>"

definition priced :: "rat \<Rightarrow> product_field" where
  "priced v = ProductMapping \<lparr> prod_id = Some ''P02'', prod_name = Some ''Laptop'',
     prod_category = Some ''Electronics'', prod_price = PriceNum v \<rparr>"

definition guest_batch :: "raw_record list" where
  "guest_batch = [sale ''T002'' None 2 ''2023-07-22'' mouse]"

definition refund_batch :: "raw_record list" where
  "refund_batch = [sale ''T003'' (Some ''C001'') (- 2) ''2023-07-22'' (priced 10)]"

definition mixed_dates_batch :: "raw_record list" where
  "mixed_dates_batch =
     [sale ''T004'' (Some ''C001'') 1 ''01/05/2023'' mouse,
      sale ''T005'' (Some ''C002'') 1 ''not a date'' mouse]"

definition overflow_date_batch :: "raw_record list" where
  "overflow_date_batch = [sale ''T006'' (Some ''C001'') 1 ''9999999999'' mouse]"

definition no_product_batch :: "raw_record list" where
  "no_product_batch = [sale ''T007'' (Some ''C001'') 1 ''2023-07-22'' NoProductKey]"

definition threshold_batch :: "raw_record list" where
  "threshold_batch =
     [sale ''T008'' (Some ''C001'') 1000 ''2023-07-22'' (priced 1),
      sale ''T009'' (Some ''C001'') 1001 ''2023-07-22'' (priced 1),
      sale ''T010'' (Some ''C001'') 1 ''2023-07-22'' (priced 100000),
      sale ''T011'' (Some ''C001'') 1 ''2023-07-22'' (priced (10000001 / 100))]"

section \<open>Notions for the properties\<close>

text \<open>A check keeps a column when the column of the table it returns is the one it got.\<close>

definition keeps :: "(working_row \<Rightarrow> 'a) \<Rightarrow> quality_check \<Rightarrow> bool" where
  "keeps col c \<longleftrightarrow> (\<forall>df. map col (fst (c df)) = map col df)"

text \<open>The table after the first \<open>i\<close> checks of \<^verbatim>\<open>perform_checks\<close>.\<close>

definition state_after :: "nat \<Rightarrow> prep_row list \<Rightarrow> working_row list" where
  "state_after i df = fst (run_checks (take i detectors) (init_flags df))"

text \<open>The table of a result; no rows when it raised.\<close>

definition rows_of :: "py_error + 'a list \<Rightarrow> 'a list" where
  "rows_of res = (case res of Inl e \<Rightarrow> [] | Inr df \<Rightarrow> df)"

text \<open>The table name and the number of rows of each write a recording store holds.\<close>

definition recorded_sizes :: "(string \<times> 'r list) list \<Rightarrow> (string \<times> nat) list" where
  "recorded_sizes issued = map (\<lambda>w. (fst w, length (snd w))) issued"


section \<open>Evaluation\<close>

lemmas text_defs = strip_def is_space_def is_digit_def

lemmas prep_defs =
  initial_prep_def flatten_product_def is_mapping_def product_cells_of_def
  standardize_date_def prep_row_of_def fillna_def to_numeric_def times_price_def ne_object_def

lemmas check_defs =
  check_missing_customer_def check_negative_quantities_def check_duplicate_transactions_def
  check_missing_product_info_def check_invalid_prices_def check_date_issues_def
  check_missing_transaction_ids_def check_suspicious_values_def suspicious_def
  mask_sum_def is_lt_def is_le_def is_gt_def

lemmas transform_defs =
  transform_def perform_checks_def detectors_def init_flags_def with_flags_def
  prep_defs check_defs text_defs

lemmas sample_defs =
  sample_parser_def mouse_def scenario_def sale_def priced_def guest_batch_def refund_batch_def
  mixed_dates_batch_def overflow_date_batch_def no_product_batch_def threshold_batch_def

lemmas load_defs =
  load_with_batch_processing_def load_table_in_batches_def recording_def
  prepare_customers_df_def prepare_products_df_def prepare_transactions_df_def
  transaction_of_def recorded_sizes_def


section \<open>Checks one after the other\<close>

lemma run_checks_Cons: "fst (run_checks (c # cs) df) = fst (run_checks cs (fst (c df)))"
  by (simp add: case_prod_unfold)

lemma run_checks_append:
  "fst (run_checks (cs1 @ cs2) df) = fst (run_checks cs2 (fst (run_checks cs1 df)))"
  by (induction cs1 arbitrary: df) (simp_all add: run_checks_Cons del: run_checks.simps(2))

lemma length_check_states: "length (check_states cs df) = Suc (length cs)"
  by (induction cs arbitrary: df) auto

lemma check_states_nth:
  "i \<le> length cs \<Longrightarrow> check_states cs df ! i = fst (run_checks (take i cs) df)"
proof (induction cs arbitrary: i df)
  case Nil
  then show ?case by simp
next
  case (Cons c cs)
  show ?case
  proof (cases i)
    case 0
    then show ?thesis by simp
  next
    case (Suc n)
    with Cons.prems have "n \<le> length cs" by simp
    from Cons.IH [OF this, of "fst (c df)"] Suc show ?thesis
      by (simp add: run_checks_Cons del: run_checks.simps)
  qed
qed

lemma run_checks_keeps:
  "\<forall>c \<in> set cs. keeps col c \<Longrightarrow> map col (fst (run_checks cs df)) = map col df"
proof (induction cs arbitrary: df)
  case Nil
  then show ?case by simp
next
  case (Cons c cs)
  from Cons.prems have c: "map col (fst (c df)) = map col df"
    by (simp add: keeps_def)
  from Cons.prems have "\<forall>c \<in> set cs. keeps col c" by simp
  from Cons.IH [OF this, of "fst (c df)"] c show ?case
    by (simp add: run_checks_Cons del: run_checks.simps)
qed

lemma keeps_upto:
  assumes "\<forall>c \<in> set (take n cs). keeps col c" and "i \<le> n"
  shows "map col (fst (run_checks (take i cs) df)) = map col df"
proof -
  have "set (take i cs) \<subseteq> set (take n cs)"
    using assms(2) by (rule set_take_subset_set_take)
  with assms(1) have "\<forall>c \<in> set (take i cs). keeps col c" by blast
  then show ?thesis by (rule run_checks_keeps)
qed

lemma keeps_from:
  assumes "\<forall>c \<in> set (drop n cs). keeps col c" and "n \<le> i"
  shows "map col (fst (run_checks (take i cs) df)) = map col (fst (run_checks (take n cs) df))"
proof -
  have split: "take i cs = take n cs @ take (i - n) (drop n cs)"
    using assms(2) by (metis le_add_diff_inverse take_add)
  have "set (take (i - n) (drop n cs)) \<subseteq> set (drop n cs)"
    by (rule set_take_subset)
  with assms(1) have "\<forall>c \<in> set (take (i - n) (drop n cs)). keeps col c" by blast
  then show ?thesis
    unfolding split run_checks_append by (rule run_checks_keeps)
qed

lemma keeps_identity: "(\<And>df. fst (c df) = df) \<Longrightarrow> keeps col c"
  by (simp add: keeps_def)

lemma check_duplicate_transactions_table: "fst (check_duplicate_transactions df) = df"
  by (simp add: check_duplicate_transactions_def Let_def)

lemma check_missing_product_info_table: "fst (check_missing_product_info df) = df"
  by (simp add: check_missing_product_info_def Let_def)

lemma check_invalid_prices_table: "fst (check_invalid_prices df) = df"
  by (simp add: check_invalid_prices_def Let_def)

lemma check_missing_transaction_ids_table: "fst (check_missing_transaction_ids df) = df"
  by (simp add: check_missing_transaction_ids_def Let_def)

lemma keeps_check_missing_customer:
  "(\<And>r m c. col (r\<lparr>has_missing_customer := m, customer_id := c\<rparr>) = col r)
   \<Longrightarrow> keeps col check_missing_customer"
  by (simp add: keeps_def check_missing_customer_def Let_def)

lemma keeps_check_negative_quantities:
  "(\<And>r m q. col (r\<lparr>had_negative_quantity := m, quantity := q\<rparr>) = col r)
   \<Longrightarrow> keeps col check_negative_quantities"
  by (simp add: keeps_def check_negative_quantities_def Let_def)

lemma keeps_check_date_issues:
  "(\<And>r m. col (r\<lparr>had_date_format_issue := m\<rparr>) = col r)
   \<Longrightarrow> keeps col check_date_issues"
  by (simp add: keeps_def check_date_issues_def Let_def)

lemma keeps_check_suspicious_values:
  "(\<And>r m. col (r\<lparr>has_suspicious_values := m\<rparr>) = col r)
   \<Longrightarrow> keeps col check_suspicious_values"
  by (simp add: keeps_def check_suspicious_values_def Let_def)

lemmas keeps_diagnostic =
  keeps_identity [OF check_duplicate_transactions_table]
  keeps_identity [OF check_missing_product_info_table]
  keeps_identity [OF check_invalid_prices_table]
  keeps_identity [OF check_missing_transaction_ids_table]

lemmas keeps_intros =
  keeps_diagnostic keeps_check_missing_customer keeps_check_negative_quantities
  keeps_check_date_issues keeps_check_suspicious_values

lemma suspicious_kept_by_first_seven:
  "\<forall>c \<in> set (take 7 detectors). keeps has_suspicious_values c"
  by (simp add: detectors_def keeps_intros)

lemma missing_customer_kept_by_last_seven:
  "\<forall>c \<in> set (drop 1 detectors). keeps has_missing_customer c"
  by (simp add: detectors_def keeps_intros)

lemma negative_quantity_kept_by_first:
  "\<forall>c \<in> set (take 1 detectors). keeps had_negative_quantity c"
  by (simp add: detectors_def keeps_intros)

lemma negative_quantity_kept_by_last_six:
  "\<forall>c \<in> set (drop 2 detectors). keeps had_negative_quantity c"
  by (simp add: detectors_def keeps_intros)

lemma date_columns_kept_by_first_five:
  "\<forall>c \<in> set (take 5 detectors).
     keeps (\<lambda>r. (date r, date_std r, had_date_format_issue r)) c"
  by (simp add: detectors_def keeps_intros)

lemma date_flag_kept_by_last_two:
  "\<forall>c \<in> set (drop 6 detectors). keeps had_date_format_issue c"
  by (simp add: detectors_def keeps_intros)

lemma init_flags_columns:
  "map has_missing_customer (init_flags df) = replicate (length df) False"
  "map had_negative_quantity (init_flags df) = replicate (length df) False"
  "map has_suspicious_values (init_flags df) = replicate (length df) False"
  "map (\<lambda>r. (date r, date_std r, had_date_format_issue r)) (init_flags df)
     = map (\<lambda>r. (date r, date_std r, had_date_format_issue r)) df"
  by (simp_all add: init_flags_def with_flags_def map_replicate_const comp_def)

lemma column_nth:
  "map col xs = map col' ys \<Longrightarrow> k < length ys \<Longrightarrow> col (xs ! k) = col' (ys ! k)"
  by (metis length_map nth_map)

lemma column_all_False:
  "map col xs = replicate n False \<Longrightarrow> r \<in> set xs \<Longrightarrow> \<not> col r"
  by (metis image_eqI list.set_map set_replicate_conv_if empty_iff singletonD)

lemma suspicious_update [simp]: "suspicious (r\<lparr>has_suspicious_values := m\<rparr>) = suspicious r"
  by (simp add: suspicious_def)

lemma perform_checks_last_step:
  "fst (perform_checks df) =
     fst (check_suspicious_values (fst (run_checks (take 7 detectors) (init_flags df))))"
proof -
  have "detectors = take 7 detectors @ [check_suspicious_values]"
    by (simp add: detectors_def)
  then have "fst (run_checks detectors (init_flags df)) =
      fst (run_checks [check_suspicious_values] (fst (run_checks (take 7 detectors) (init_flags df))))"
    by (metis run_checks_append)
  then show ?thesis
    by (simp add: perform_checks_def case_prod_unfold)
qed

lemma suspicious_flag_of_checked_rows:
  assumes "r \<in> set (fst (perform_checks df))"
  shows "has_suspicious_values r = suspicious r"
proof -
  let ?d7 = "fst (run_checks (take 7 detectors) (init_flags df))"
  have col: "map has_suspicious_values ?d7 = replicate (length df) False"
    using keeps_upto [OF suspicious_kept_by_first_seven, of 7 "init_flags df"]
    by (simp add: init_flags_columns)
  from assms have r: "r \<in> set (fst (check_suspicious_values ?d7))"
    by (simp only: perform_checks_last_step)
  show ?thesis
  proof (cases "0 < mask_sum suspicious ?d7")
    case True
    with r show ?thesis
      by (auto simp: check_suspicious_values_def Let_def)
  next
    case False
    with r have in7: "r \<in> set ?d7"
      by (simp add: check_suspicious_values_def Let_def)
    from False have "filter suspicious ?d7 = []"
      by (simp add: mask_sum_def)
    with in7 have "\<not> suspicious r"
      by (simp add: filter_empty_conv)
    moreover from col in7 have "\<not> has_suspicious_values r"
      by (rule column_all_False)
    ultimately show ?thesis by simp
  qed
qed

lemma all_keep_unit: "\<forall>c \<in> set (take 8 detectors). keeps (\<lambda>r. ()) c"
  by (simp add: detectors_def keeps_intros)

lemma length_state_after: "i \<le> 8 \<Longrightarrow> length (state_after i df) = length df"
proof -
  assume "i \<le> 8"
  with all_keep_unit have "map (\<lambda>r. ()) (state_after i df) = map (\<lambda>r. ()) (init_flags df)"
    unfolding state_after_def by (rule keeps_upto)
  then have "length (state_after i df) = length (init_flags df)"
    by (rule map_eq_imp_length_eq)
  then show ?thesis by (simp add: init_flags_def)
qed

lemma state_after_keeps_from:
  "\<forall>c \<in> set (drop n detectors). keeps col c \<Longrightarrow> n \<le> i
   \<Longrightarrow> map col (state_after i df) = map col (state_after n df)"
  unfolding state_after_def by (rule keeps_from)

lemma state_after_keeps_upto:
  "\<forall>c \<in> set (take n detectors). keeps col c \<Longrightarrow> i \<le> n
   \<Longrightarrow> map col (state_after i df) = map col (init_flags df)"
  unfolding state_after_def by (rule keeps_upto)

lemma length_detectors: "length detectors = 8"
  by (simp add: detectors_def)

lemma check_states_state_after:
  "i \<le> 8 \<Longrightarrow> check_states detectors (init_flags df) ! i = state_after i df"
  by (simp add: state_after_def check_states_nth length_detectors)

lemma False_column_nth:
  "map col xs = replicate n False \<Longrightarrow> k < length xs \<Longrightarrow> \<not> col (xs ! k)"
  by (metis column_all_False nth_mem)

lemma missing_customer_monotone:
  assumes "i \<le> j" "j \<le> 8" "k < length df"
  shows "has_missing_customer (state_after i df ! k) \<longrightarrow> has_missing_customer (state_after j df ! k)"
proof (cases "i = 0")
  case True
  have "map has_missing_customer (state_after 0 df) = replicate (length df) False"
    by (simp add: state_after_def init_flags_columns)
  with assms(3) have "\<not> has_missing_customer (state_after 0 df ! k)"
    by (intro False_column_nth) (simp_all add: length_state_after)
  with True show ?thesis by simp
next
  case False
  then have "1 \<le> i" and "1 \<le> j" using assms(1) by simp_all
  then have "map has_missing_customer (state_after i df) = map has_missing_customer (state_after 1 df)"
    and "map has_missing_customer (state_after j df) = map has_missing_customer (state_after 1 df)"
    by (simp_all only: state_after_keeps_from [OF missing_customer_kept_by_last_seven, of i]
          state_after_keeps_from [OF missing_customer_kept_by_last_seven, of j])
  then have "map has_missing_customer (state_after i df) = map has_missing_customer (state_after j df)"
    by simp
  from column_nth [OF this] assms show ?thesis
    by (simp add: length_state_after)
qed

lemma negative_quantity_monotone:
  assumes "i \<le> j" "j \<le> 8" "k < length df"
  shows "had_negative_quantity (state_after i df ! k) \<longrightarrow> had_negative_quantity (state_after j df ! k)"
proof (cases "i \<le> 1")
  case True
  then have "map had_negative_quantity (state_after i df) = replicate (length df) False"
    unfolding state_after_def
    by (simp add: keeps_upto [OF negative_quantity_kept_by_first] init_flags_columns)
  with assms have "\<not> had_negative_quantity (state_after i df ! k)"
    by (intro False_column_nth) (simp_all add: length_state_after)
  then show ?thesis by simp
next
  case False
  then have "2 \<le> i" and "2 \<le> j" using assms(1) by simp_all
  then have "map had_negative_quantity (state_after i df) = map had_negative_quantity (state_after 2 df)"
    and "map had_negative_quantity (state_after j df) = map had_negative_quantity (state_after 2 df)"
    by (simp_all only: state_after_keeps_from [OF negative_quantity_kept_by_last_six, of i]
          state_after_keeps_from [OF negative_quantity_kept_by_last_six, of j])
  then have "map had_negative_quantity (state_after i df) = map had_negative_quantity (state_after j df)"
    by simp
  from column_nth [OF this] assms show ?thesis
    by (simp add: length_state_after)
qed

lemma suspicious_values_monotone:
  assumes "i \<le> j" "j \<le> 8" "k < length df"
  shows "has_suspicious_values (state_after i df ! k) \<longrightarrow> has_suspicious_values (state_after j df ! k)"
proof (cases "i \<le> 7")
  case True
  then have "map has_suspicious_values (state_after i df) = replicate (length df) False"
    unfolding state_after_def
    by (simp add: keeps_upto [OF suspicious_kept_by_first_seven] init_flags_columns)
  with assms have "\<not> has_suspicious_values (state_after i df ! k)"
    by (intro False_column_nth) (simp_all add: length_state_after)
  then show ?thesis by simp
next
  case False
  with assms have "i = j" by simp
  then show ?thesis by simp
qed

lemma length_filter_column:
  "length (filter (\<lambda>r. P (f r)) zs) = length (filter P (map f zs))"
  by (induction zs) auto

lemma mask_sum_of_column:
  assumes "map col xs = map col' ys"
  shows "mask_sum (\<lambda>r. P (col r)) xs = mask_sum (\<lambda>r. P (col' r)) ys"
proof -
  have "length (filter (\<lambda>r. P (col r)) xs) = length (filter P (map col xs))"
    by (rule length_filter_column)
  also have "\<dots> = length (filter P (map col' ys))"
    by (simp only: assms)
  also have "\<dots> = length (filter (\<lambda>r. P (col' r)) ys)"
    by (rule length_filter_column [symmetric])
  finally show ?thesis
    by (simp only: mask_sum_def)
qed

lemma date_flag_before_check:
  assumes "j \<le> 5"
  shows "map (\<lambda>r. (date r, date_std r, had_date_format_issue r)) (state_after j df)
           = map (\<lambda>r. (date r, date_std r, had_date_format_issue r)) df"
  using assms unfolding state_after_def
  by (simp add: keeps_upto [OF date_columns_kept_by_first_five] init_flags_columns)

lemma state_after_6: "state_after 6 df = fst (check_date_issues (state_after 5 df))"
proof -
  have "take 6 detectors = take 5 detectors @ [check_date_issues]"
    by (simp add: detectors_def)
  then show ?thesis
    by (simp add: state_after_def run_checks_append case_prod_unfold)
qed

lemma date_flag_after_check:
  assumes "6 \<le> j" "j \<le> 8" "k < length df"
  shows "had_date_format_issue (state_after j df ! k) =
           (if list_ex (\<lambda>r. date_std r = None \<and> date r \<noteq> None) df
            then date_std (df ! k) = None \<and> date (df ! k) \<noteq> None
            else had_date_format_issue (df ! k))"
proof -
  let ?cols = "\<lambda>r. (date r, date_std r, had_date_format_issue r)"
  let ?d5 = "state_after 5 df"
  have cols: "map ?cols ?d5 = map ?cols df"
    by (simp add: date_flag_before_check)
  have k5: "k < length ?d5" using assms(3) by (simp add: length_state_after)
  from column_nth [OF cols assms(3)]
  have row: "date (?d5 ! k) = date (df ! k)" "date_std (?d5 ! k) = date_std (df ! k)"
    "had_date_format_issue (?d5 ! k) = had_date_format_issue (df ! k)"
    by simp_all
  have "mask_sum (\<lambda>r. (\<lambda>(d, s, f). s = None \<and> d \<noteq> None) (?cols r)) ?d5
      = mask_sum (\<lambda>r. (\<lambda>(d, s, f). s = None \<and> d \<noteq> None) (?cols r)) df"
    using cols by (rule mask_sum_of_column)
  then have count: "mask_sum (\<lambda>r. date_std r = None \<and> date r \<noteq> None) ?d5
      = mask_sum (\<lambda>r. date_std r = None \<and> date r \<noteq> None) df"
    by simp
  have ex: "0 < mask_sum (\<lambda>r. date_std r = None \<and> date r \<noteq> None) df
      \<longleftrightarrow> list_ex (\<lambda>r. date_std r = None \<and> date r \<noteq> None) df"
    by (simp add: mask_sum_def list_ex_iff filter_empty_conv)
  have six: "had_date_format_issue (state_after 6 df ! k) =
           (if list_ex (\<lambda>r. date_std r = None \<and> date r \<noteq> None) df
            then date_std (df ! k) = None \<and> date (df ! k) \<noteq> None
            else had_date_format_issue (df ! k))"
    using k5 row count ex by (simp add: state_after_6 check_date_issues_def Let_def)
  have "map had_date_format_issue (state_after j df) = map had_date_format_issue (state_after 6 df)"
    using date_flag_kept_by_last_two assms(1) by (rule state_after_keeps_from)
  from column_nth [OF this] assms(3) have
    "had_date_format_issue (state_after j df ! k) = had_date_format_issue (state_after 6 df ! k)"
    by (simp add: length_state_after)
  with six show ?thesis by simp
qed

lemma date_flag_before_check_nth:
  assumes "j \<le> 5" "k < length df"
  shows "had_date_format_issue (state_after j df ! k) = had_date_format_issue (df ! k)"
  using column_nth [OF date_flag_before_check [OF assms(1)] assms(2)] by simp

lemma perform_checks_is_last_state: "fst (perform_checks df) = state_after 8 df"
  by (simp add: perform_checks_def state_after_def detectors_def)


section \<open>Chunks and writes\<close>

declare chunks.simps [simp del]
declare load_batches_from.simps [simp del]

lemma chunks_Nil [simp]: "chunks n [] = []"
  by (simp add: chunks.simps)

lemma chunks_Cons: "0 < n \<Longrightarrow> xs \<noteq> [] \<Longrightarrow> chunks n xs = take n xs # chunks n (drop n xs)"
  by (subst chunks.simps) simp

lemma concat_chunks: "0 < n \<Longrightarrow> concat (chunks n xs) = xs"
proof (induction n xs rule: chunks.induct)
  case (1 n xs)
  show ?case
  proof (cases "xs = []")
    case True
    then show ?thesis by simp
  next
    case False
    with 1 show ?thesis by (simp add: chunks_Cons)
  qed
qed

lemma div_round_up_small:
  "0 < (n::nat) \<Longrightarrow> 0 < L \<Longrightarrow> \<not> n \<le> L \<Longrightarrow> (L + n - 1) div n = 1"
  by (rule div_nat_eqI) simp_all

lemma div_round_up_step:
  "0 < (n::nat) \<Longrightarrow> n \<le> L \<Longrightarrow> (L + n - 1) div n = (L - n + n - 1) div n + 1"
proof -
  assume n: "0 < n" and le: "n \<le> L"
  then obtain m where m: "L = Suc m" by (cases L) auto
  from n have "n \<noteq> 0" by simp
  then have "(m + n) div n = m div n + 1" by (rule div_add_self2)
  with m le show ?thesis by simp
qed

lemma below_div_round_up:
  "0 < (n::nat) \<Longrightarrow> k < (L + n - 1) div n \<Longrightarrow> k * n < L"
proof -
  assume n: "0 < n" and k: "k < (L + n - 1) div n"
  then have "Suc k \<le> (L + n - 1) div n" by simp
  with n have "Suc k * n \<le> L + n - 1"
    by (simp only: less_eq_div_iff_mult_less_eq)
  with n show ?thesis by simp
qed

lemma length_chunks: "0 < n \<Longrightarrow> length (chunks n xs) = (length xs + n - 1) div n"
proof (induction n xs rule: chunks.induct)
  case (1 n xs)
  show ?case
  proof (cases "xs = []")
    case True
    with "1.prems" show ?thesis by simp
  next
    case False
    then have pos: "0 < length xs" by simp
    from 1 False have ih: "length (chunks n (drop n xs)) = (length xs - n + n - 1) div n"
      by simp
    have step: "length (chunks n xs) = Suc (length (chunks n (drop n xs)))"
      using False "1.prems" by (simp add: chunks_Cons)
    show ?thesis
    proof (cases "n \<le> length xs")
      case True
      with "1.prems" have "(length xs + n - 1) div n = (length xs - n + n - 1) div n + 1"
        by (rule div_round_up_step)
      with ih step show ?thesis by simp
    next
      case less: False
      with "1.prems" have "(length xs - n + n - 1) div n = 0" by simp
      moreover from "1.prems" pos less have "(length xs + n - 1) div n = 1"
        by (rule div_round_up_small)
      ultimately show ?thesis using ih step by simp
    qed
  qed
qed

lemma chunks_nth:
  "0 < n \<Longrightarrow> k * n < length xs \<Longrightarrow> chunks n xs ! k = take n (drop (k * n) xs)"
proof (induction k arbitrary: xs)
  case 0
  then have "xs \<noteq> []" by auto
  with 0 show ?case by (simp add: chunks_Cons)
next
  case (Suc k)
  then have ne: "xs \<noteq> []" by auto
  from Suc.prems have "k * n < length (drop n xs)" by simp
  from Suc.IH [OF Suc.prems(1) this] ne Suc.prems(1) show ?case
    by (simp add: chunks_Cons add.commute)
qed

lemma chunk_index_in_range:
  assumes "0 < n" and "k < length (chunks n xs)"
  shows "k * n < length xs"
  using assms by (simp add: length_chunks below_div_round_up)

lemma write_all_append:
  "write_all to_sql (ws1 @ ws2) db =
     (case write_all to_sql ws1 db of
        (False, db1) \<Rightarrow> (False, db1)
      | (True, db1) \<Rightarrow> write_all to_sql ws2 db1)"
  by (induction ws1 arbitrary: db) (auto split: prod.splits bool.splits)

lemma load_batches_from_chunks:
  "0 < b \<Longrightarrow>
   load_batches_from to_sql name df b i db =
     (case write_all to_sql (map (Pair name) (chunks b (drop i df))) db of
        (False, db1) \<Rightarrow> Inl (DatabaseError, db1)
      | (True, db1) \<Rightarrow> Inr db1)"
proof (induction to_sql name df b i db rule: load_batches_from.induct)
  case (1 to_sql name df b i db)
  show ?case
  proof (cases "i < length df")
    case False
    then show ?thesis
      by (subst load_batches_from.simps) simp
  next
    case True
    then have ne: "drop i df \<noteq> []" by simp
    have next_chunks: "chunks b (drop i df) = take b (drop i df) # chunks b (drop (i + b) df)"
      using "1.prems" ne by (simp add: chunks_Cons add.commute)
    show ?thesis
    proof (cases "to_sql name (take b (drop i df)) db")
      case (Pair ok db1)
      show ?thesis
      proof (cases ok)
        case False
        with Pair True "1.prems" next_chunks show ?thesis
          by (subst load_batches_from.simps) simp
      next
        case ok: True
        from "1.IH" "1.prems" True Pair ok
        have "load_batches_from to_sql name df b (i + b) db1 =
          (case write_all to_sql (map (Pair name) (chunks b (drop (i + b) df))) db1 of
             (False, db2) \<Rightarrow> Inl (DatabaseError, db2)
           | (True, db2) \<Rightarrow> Inr db2)"
          by simp
        with Pair True "1.prems" next_chunks ok show ?thesis
          by (subst load_batches_from.simps) simp
      qed
    qed
  qed
qed

lemma load_table_in_batches_chunks:
  "0 < batch_size \<Longrightarrow>
   load_table_in_batches to_sql df name batch_size db =
     (case write_all to_sql (map (Pair name) (chunks (nat batch_size) df)) db of
        (False, db1) \<Rightarrow> Inl (DatabaseError, db1)
      | (True, db1) \<Rightarrow> Inr db1)"
  by (simp add: load_table_in_batches_def load_batches_from_chunks)

lemma load_with_batch_processing_plan:
  assumes "0 < batch_size"
  shows "load_with_batch_processing True to_sql to_datetime df batch_size db =
     write_all to_sql
       (map (Pair ''customers'')
          (chunks (nat batch_size) (map CustomerRow (prepare_customers_df df)))
        @ map (Pair ''products'')
            (chunks (nat batch_size) (map ProductRow (prepare_products_df df)))
        @ map (Pair ''transactions'')
            (chunks (nat batch_size)
               (map TransactionRow (prepare_transactions_df to_datetime df)))) db"
  using assms
  by (simp add: load_with_batch_processing_def load_table_in_batches_chunks write_all_append
      Let_def split: prod.splits bool.splits)

lemma write_all_stops_at_failure:
  assumes "fst (write_all to_sql ws1 db)"
    and "\<not> fst (to_sql name rows (snd (write_all to_sql ws1 db)))"
  shows "write_all to_sql (ws1 @ (name, rows) # ws2) db =
           (False, snd (to_sql name rows (snd (write_all to_sql ws1 db))))"
  using assms by (auto simp: write_all_append split: prod.splits bool.splits)


section \<open>Row counts\<close>

lemma apply_standardize_date_length:
  "apply_standardize_date parse ds = Inr vs \<Longrightarrow> length vs = length ds"
  by (induction ds arbitrary: vs) (auto split: sum.splits)

lemma initial_prep_length:
  assumes "initial_prep parse data = Inr df"
  shows "length df = length data"
proof -
  from assms obtain cells stds where c: "flatten_product data = Inr cells"
    and s: "apply_standardize_date parse (map date data) = Inr stds"
    and df: "df = map (\<lambda>(r, c, std). prep_row_of r c std) (zip data (zip cells stds))"
    by (auto simp: initial_prep_def split: sum.splits)
  from c have "length cells = length data"
    by (auto simp: flatten_product_def split: if_splits)
  moreover from s have "length stds = length data"
    by (auto dest: apply_standardize_date_length)
  ultimately show ?thesis using df by simp
qed

lemma transform_length:
  assumes "transform parse data = Inr df"
  shows "length df = length data"
proof -
  from assms obtain p where p: "initial_prep parse data = Inr p" and df: "df = fst (perform_checks p)"
    by (auto simp: transform_def split: sum.splits)
  from df have "length df = length p"
    by (simp add: perform_checks_is_last_state length_state_after)
  with p show ?thesis by (simp add: initial_prep_length)
qed


section \<open>The transform on every input\<close>

text \<open>Row \<open>i\<close> of the prepared table comes from record \<open>i\<close> of the input.\<close>

lemma initial_prep_rows:
  assumes "initial_prep parse data = Inr p" and "i < length data"
  shows "\<exists>cells std. p ! i = prep_row_of (data ! i) cells std"
proof -
  from assms(1) obtain cells stds where c: "flatten_product data = Inr cells"
    and s: "apply_standardize_date parse (map date data) = Inr stds"
    and p: "p = map (\<lambda>(r, c, std). prep_row_of r c std) (zip data (zip cells stds))"
    by (auto simp: initial_prep_def split: sum.splits)
  from c have "length cells = length data"
    by (auto simp: flatten_product_def split: if_splits)
  moreover from s have "length stds = length data"
    by (auto dest: apply_standardize_date_length)
  ultimately have "p ! i = prep_row_of (data ! i) (cells ! i) (stds ! i)"
    using p assms(2) by simp
  then show ?thesis by blast
qed

text \<open>
  After \<^verbatim>\<open>_initial_prep\<close> no \<^verbatim>\<open>customer_id\<close> is null, so the missing-customer check
  counts nothing and changes nothing, and the flag is false on every row of every result.
\<close>

lemma initial_prep_customer_filled:
  assumes "initial_prep parse data = Inr p" and "r \<in> set p"
  shows "customer_id r \<noteq> None"
proof -
  from assms(2) obtain i where i: "i < length p" and r: "r = p ! i"
    by (auto simp: in_set_conv_nth)
  from assms(1) have "length p = length data" by (rule initial_prep_length)
  with i have "i < length data" by simp
  with assms(1) obtain cells std where "p ! i = prep_row_of (data ! i) cells std"
    by (blast dest: initial_prep_rows)
  with r show ?thesis
    by (simp add: prep_row_of_def fillna_def split: prod.splits option.splits)
qed

lemma missing_customer_check_finds_nothing:
  assumes "initial_prep parse data = Inr p"
  shows "check_missing_customer (init_flags p) = (init_flags p, 0)"
proof -
  have "\<forall>r \<in> set (init_flags p). customer_id r \<noteq> None"
    using initial_prep_customer_filled [OF assms]
    by (auto simp: init_flags_def with_flags_def)
  then have "filter (\<lambda>r. customer_id r = None) (init_flags p) = []"
    by (simp add: filter_empty_conv)
  then show ?thesis
    by (simp add: check_missing_customer_def mask_sum_def)
qed

lemma missing_customer_flag_never_set:
  assumes "transform parse data = Inr df" and "r \<in> set df"
  shows "\<not> has_missing_customer r"
proof -
  from assms(1) obtain p where p: "initial_prep parse data = Inr p"
    and df: "df = state_after 8 p"
    by (auto simp: transform_def perform_checks_is_last_state split: sum.splits)
  have "take 1 detectors = [check_missing_customer]" by (simp add: detectors_def)
  then have "state_after 1 p = init_flags p"
    by (simp add: state_after_def missing_customer_check_finds_nothing [OF p])
  moreover have "map has_missing_customer (state_after 8 p)
      = map has_missing_customer (state_after 1 p)"
    using missing_customer_kept_by_last_seven by (rule state_after_keeps_from) simp
  ultimately have "map has_missing_customer df = replicate (length p) False"
    using df by (simp add: init_flags_columns)
  from this assms(2) show ?thesis by (rule column_all_False)
qed

text \<open>
  The line total of a final row is the product of the quantity as the input gave it and
  the price, whatever the repair of the quantity did afterwards.
\<close>

lemma all_keep_price_and_total:
  "\<forall>c \<in> set (take 8 detectors). keeps (\<lambda>r. (price r, total_value r)) c"
  by (simp add: detectors_def keeps_intros)

lemma total_value_from_quantity_as_read:
  assumes "transform parse data = Inr df" and "i < length data"
  shows "total_value (df ! i) = times_price (quantity (data ! i)) (price (df ! i))"
proof -
  from assms(1) obtain p where p: "initial_prep parse data = Inr p"
    and df: "df = state_after 8 p"
    by (auto simp: transform_def perform_checks_is_last_state split: sum.splits)
  from p have len: "length p = length data" by (rule initial_prep_length)
  from p assms(2) obtain cells std where row: "p ! i = prep_row_of (data ! i) cells std"
    by (blast dest: initial_prep_rows)
  have "map (\<lambda>r. (price r, total_value r)) (state_after 8 p)
      = map (\<lambda>r. (price r, total_value r)) (init_flags p)"
    using all_keep_price_and_total by (rule state_after_keeps_upto) simp
  also have "\<dots> = map (\<lambda>r. (price r, total_value r)) p"
    by (simp add: init_flags_def with_flags_def comp_def)
  finally have "(price (df ! i), total_value (df ! i)) = (price (p ! i), total_value (p ! i))"
    using df len assms(2) by (auto dest: column_nth [where k = i])
  with row show ?thesis
    by (simp add: prep_row_of_def split: prod.splits)
qed

text \<open>
  A batch in which no record has the key \<^verbatim>\<open>product\<close> raises; in a batch that is
  prepared, a row whose record has no product mapping has the four product fields null.
\<close>

lemma batch_without_any_product_raises:
  assumes "\<forall>r \<in> set data. product r = NoProductKey"
  shows "transform parse data = Inl (KeyError ''product'')"
proof -
  from assms have "\<not> list_ex (\<lambda>r. is_mapping (product r)) data"
    and "\<not> list_ex (\<lambda>r. product r = NotAMapping) data"
    by (auto simp: list_ex_iff is_mapping_def)
  then show ?thesis
    by (simp add: transform_def initial_prep_def flatten_product_def)
qed

lemma rows_without_mapping_are_null:
  assumes "initial_prep parse data = Inr p" and "i < length data"
    and "\<not> is_mapping (product (data ! i))"
  shows "product_id (p ! i) = None \<and> product_name (p ! i) = None
         \<and> category (p ! i) = None \<and> price (p ! i) = None"
proof -
  from assms(1) obtain cells stds where c: "flatten_product data = Inr cells"
    and s: "apply_standardize_date parse (map date data) = Inr stds"
    and p: "p = map (\<lambda>(r, c, std). prep_row_of r c std) (zip data (zip cells stds))"
    by (auto simp: initial_prep_def split: sum.splits)
  from c have cells: "cells = map (\<lambda>r. product_cells_of (product r)) data"
    by (auto simp: flatten_product_def split: if_splits)
  from s have "length stds = length data"
    by (auto dest: apply_standardize_date_length)
  with cells p assms(2,3) show ?thesis
    by (simp add: prep_row_of_def product_cells_of_def is_mapping_def to_numeric_def
        split: product_field.splits)
qed


section \<open>Missing customers\<close>

text \<open>
  Claim C1 says that after the transform stage \<^verbatim>\<open>has_missing_customer\<close> is true exactly
  for the records whose \<^verbatim>\<open>customer_id\<close> was null, and that those rows carry the id
  \<^verbatim>\<open>Unknown\<close>. The code does not do that. \<^verbatim>\<open>_initial_prep\<close> fills a null id with
  \<^verbatim>\<open>GUEST\<close> before the checks run, so \<^verbatim>\<open>_check_missing_customer\<close> finds no null, counts
  zero and neither sets the flag nor writes \<^verbatim>\<open>Unknown\<close>: the record of \<open>guest_batch\<close>,
  whose \<^verbatim>\<open>customer_id\<close> is null, ends with the id \<^verbatim>\<open>GUEST\<close> and the flag false.
\<close>

theorem null_customer_ends_as_unflagged_guest:
  "map_sum id (map (\<lambda>r. (customer_id r, has_missing_customer r)))
     (transform sample_parser guest_batch) = Inr [(Some ''GUEST'', False)]
   \<and> map_sum id (\<lambda>df. snd (check_missing_customer (init_flags df)))
       (initial_prep sample_parser guest_batch) = Inr 0"
  by (simp add: transform_defs sample_defs)


section \<open>The end-to-end scenario\<close>

text \<open>
  Claim C2 says that the scenario record (null \<^verbatim>\<open>customer_id\<close>, quantity \<^verbatim>\<open>-3\<close>, price
  \<^verbatim>\<open>25.0\<close>) yields one customer \<^verbatim>\<open>Unknown\<close>, one product and one transaction with
  quantity 3, total value 75.0 and both flags true. The code gives one row in each of
  the three tables, quantity 3 and \<^verbatim>\<open>had_negative_quantity\<close> true, but the customer is
  \<^verbatim>\<open>GUEST\<close>, \<^verbatim>\<open>has_missing_customer\<close> is false, and \<^verbatim>\<open>total_value\<close> is \<^verbatim>\<open>-75\<close>:
  the total is computed in \<^verbatim>\<open>_initial_prep\<close> from the quantity as read, and the later
  repair of the quantity does not compute it again.
\<close>

theorem scenario_yields_guest_and_negative_total:
  "transform sample_parser scenario =
     Inr [\<lparr> transaction_id = Some ''T001'', customer_id = Some ''GUEST'', quantity = Some 3,
            date = Some ''2023-01-05'', region = Some ''North'',
            product_id = Some ''P01'', product_name = Some ''Mouse'',
            category = Some ''Accessories'', price = Some 25,
            date_std = Some ''2023-01-05'', total_value = Some (- 75),
            had_date_format_issue = False, has_missing_customer = False,
            had_negative_quantity = True, has_suspicious_values = False \<rparr>]
   \<and> map_sum id prepare_customers_df (transform sample_parser scenario) = Inr [Some ''GUEST'']
   \<and> map_sum id prepare_products_df (transform sample_parser scenario) =
       Inr [(Some ''P01'', Some ''Mouse'', Some ''Accessories'', Some 25)]
   \<and> map_sum id (\<lambda>df. length (prepare_transactions_df Some df))
       (transform sample_parser scenario) = Inr 1"
  by (simp add: transform_defs sample_defs prepare_customers_df_def prepare_products_df_def
      prepare_transactions_df_def)


section \<open>Flags along the checks\<close>

text \<open>
  Claim C3 says that a flag once true is never set back to false in the same run, and
  names \<^verbatim>\<open>had_date_format_issue\<close> in particular. That fails for this flag. In
  \<open>mixed_dates_batch\<close> the first date \<^verbatim>\<open>01/05/2023\<close> is read and written
  \<^verbatim>\<open>2023-01-05\<close>, so the flag is seeded true; the second date cannot be read, so
  \<^verbatim>\<open>_check_date_issues\<close> counts one and overwrites the whole column with its mask,
  which is false on the first row. The list below is the flag of the first row before the
  first check and after each of the eight.
\<close>

theorem seeded_date_flag_reset_by_date_check:
  "initial_prep sample_parser mixed_dates_batch
     = Inr (rows_of (initial_prep sample_parser mixed_dates_batch))
   \<and> map (\<lambda>s. had_date_format_issue (s ! 0))
       (check_states detectors
          (init_flags (rows_of (initial_prep sample_parser mixed_dates_batch))))
       = [True, True, True, True, True, True, False, False, False]
   \<and> map_sum id (map had_date_format_issue) (transform sample_parser mixed_dates_batch)
       = Inr [False, True]"
  by (simp add: rows_of_def transform_defs sample_defs)

text \<open>
  Claim C3 as the code has it, for the table before the first check and after each check
  (index 0 to 8, the last being the result of \<^verbatim>\<open>perform_checks\<close>): a true
  \<^verbatim>\<open>has_missing_customer\<close>, \<^verbatim>\<open>had_negative_quantity\<close> or \<^verbatim>\<open>has_suspicious_values\<close>
  stays true in every later table. \<^verbatim>\<open>had_date_format_issue\<close> keeps its seeded value up
  to the date check, and from the date check on as well when no row has a date that
  failed to parse; when some row has one, the flag of every row is from then on whether
  that row's \<^verbatim>\<open>date_std\<close> is null with \<^verbatim>\<open>date\<close> not null.
\<close>

theorem flags_kept_except_date_flag:
  assumes "i \<le> j" and "j \<le> 8" and "k < length df"
  shows "(has_missing_customer (check_states detectors (init_flags df) ! i ! k)
            \<longrightarrow> has_missing_customer (check_states detectors (init_flags df) ! j ! k))
       \<and> (had_negative_quantity (check_states detectors (init_flags df) ! i ! k)
            \<longrightarrow> had_negative_quantity (check_states detectors (init_flags df) ! j ! k))
       \<and> (has_suspicious_values (check_states detectors (init_flags df) ! i ! k)
            \<longrightarrow> has_suspicious_values (check_states detectors (init_flags df) ! j ! k))
       \<and> had_date_format_issue (check_states detectors (init_flags df) ! j ! k) =
           (if 6 \<le> j \<and> list_ex (\<lambda>r. date_std r = None \<and> date r \<noteq> None) df
            then date_std (df ! k) = None \<and> date (df ! k) \<noteq> None
            else had_date_format_issue (df ! k))
       \<and> check_states detectors (init_flags df) ! 8 = fst (perform_checks df)"
proof -
  from assms have i8: "i \<le> 8" by simp
  have date_flag: "had_date_format_issue (state_after j df ! k) =
           (if 6 \<le> j \<and> list_ex (\<lambda>r. date_std r = None \<and> date r \<noteq> None) df
            then date_std (df ! k) = None \<and> date (df ! k) \<noteq> None
            else had_date_format_issue (df ! k))"
  proof (cases "6 \<le> j")
    case True
    with assms show ?thesis by (simp add: date_flag_after_check)
  next
    case False
    then have "j \<le> 5" by simp
    with assms(3) False show ?thesis by (simp add: date_flag_before_check_nth)
  qed
  show ?thesis
    using missing_customer_monotone [OF assms] negative_quantity_monotone [OF assms]
      suspicious_values_monotone [OF assms] date_flag
    by (simp only: check_states_state_after [OF i8] check_states_state_after [OF assms(2)]
          check_states_state_after [OF order_refl] perform_checks_is_last_state simp_thms)
qed

theorem flags_kept_except_date_flag_witness:
  "(2::nat) \<le> 8 \<and> (8::nat) \<le> 8
   \<and> 0 < length (rows_of (initial_prep sample_parser scenario))
   \<and> had_negative_quantity
       (check_states detectors (init_flags (rows_of (initial_prep sample_parser scenario))) ! 2 ! 0)
   \<and> had_negative_quantity
       (check_states detectors (init_flags (rows_of (initial_prep sample_parser scenario))) ! 8 ! 0)
   \<and> had_date_format_issue
       (check_states detectors (init_flags (rows_of (initial_prep sample_parser scenario))) ! 8 ! 0)
       = had_date_format_issue (rows_of (initial_prep sample_parser scenario) ! 0)"
  using flags_kept_except_date_flag [of 2 8 0 "rows_of (initial_prep sample_parser scenario)"]
  by (simp add: rows_of_def transform_defs sample_defs)


section \<open>The line total\<close>

text \<open>
  Claim C4 says that in the final table \<^verbatim>\<open>total_value\<close> is the product of the row's
  \<^verbatim>\<open>quantity\<close>, as repaired, and its \<^verbatim>\<open>price\<close>. The code computes the total before
  \<^verbatim>\<open>_check_negative_quantities\<close> replaces the quantity by its absolute value: the
  record of \<open>refund_batch\<close>, with quantity \<^verbatim>\<open>-2\<close> and price 10, ends with quantity 2,
  price 10 and total \<^verbatim>\<open>-20\<close>, not 20.
\<close>

theorem refund_total_is_negative_product:
  "map_sum id (map (\<lambda>r. (quantity r, price r, total_value r, had_negative_quantity r)))
     (transform sample_parser refund_batch) = Inr [(Some 2, Some 10, Some (- 20), True)]"
  by (simp add: transform_defs sample_defs)


section \<open>Batch loading\<close>

text \<open>
  Claim C5: with an engine and a positive \<^verbatim>\<open>batch_size\<close>, the load stage is the
  sequence of writes customers, products, transactions, each table cut into chunks, one
  write per chunk in ascending order, stopped at the first write that fails; without an
  engine it writes nothing and fails. A table of \<open>n\<close> rows has
  \<open>(n + batch_size - 1) div batch_size\<close> chunks, which joined give the table back;
  chunk \<open>k\<close> is the rows from index \<open>k * batch_size\<close> on, at most \<^verbatim>\<open>batch_size\<close> of
  them and at least one. When the writes before a chunk went through and the chunk's
  write fails, the stage answers \<open>False\<close> and leaves the store as that write left it,
  whatever chunks and tables were still to come.
\<close>

theorem batches_written_in_dependency_order:
  assumes "0 < batch_size"
  shows "load_with_batch_processing True to_sql to_datetime df batch_size db =
           write_all to_sql
             (map (Pair ''customers'')
                (chunks (nat batch_size) (map CustomerRow (prepare_customers_df df)))
              @ map (Pair ''products'')
                  (chunks (nat batch_size) (map ProductRow (prepare_products_df df)))
              @ map (Pair ''transactions'')
                  (chunks (nat batch_size)
                     (map TransactionRow (prepare_transactions_df to_datetime df)))) db
       \<and> load_with_batch_processing False to_sql to_datetime df batch_size db = (False, db)
       \<and> length (chunks (nat batch_size) rows)
           = (length rows + nat batch_size - 1) div nat batch_size
       \<and> concat (chunks (nat batch_size) rows) = rows
       \<and> (\<forall>k < length (chunks (nat batch_size) rows).
             chunks (nat batch_size) rows ! k
               = take (nat batch_size) (drop (k * nat batch_size) rows)
             \<and> chunks (nat batch_size) rows ! k \<noteq> [])
       \<and> (fst (write_all to_sql ws1 db)
            \<and> \<not> fst (to_sql name chunk (snd (write_all to_sql ws1 db)))
          \<longrightarrow> write_all to_sql (ws1 @ (name, chunk) # ws2) db
                = (False, snd (to_sql name chunk (snd (write_all to_sql ws1 db)))))"
proof -
  from assms have n: "0 < nat batch_size" by simp
  have nth: "\<forall>k < length (chunks (nat batch_size) rows).
             chunks (nat batch_size) rows ! k
               = take (nat batch_size) (drop (k * nat batch_size) rows)
             \<and> chunks (nat batch_size) rows ! k \<noteq> []"
  proof (intro allI impI)
    fix k assume "k < length (chunks (nat batch_size) rows)"
    with n have k: "k * nat batch_size < length rows" by (rule chunk_index_in_range)
    with n have "chunks (nat batch_size) rows ! k
        = take (nat batch_size) (drop (k * nat batch_size) rows)"
      by (rule chunks_nth)
    moreover from k n have "take (nat batch_size) (drop (k * nat batch_size) rows) \<noteq> []"
      by simp
    ultimately show "chunks (nat batch_size) rows ! k
               = take (nat batch_size) (drop (k * nat batch_size) rows)
             \<and> chunks (nat batch_size) rows ! k \<noteq> []" by simp
  qed
  have stop: "fst (write_all to_sql ws1 db)
            \<and> \<not> fst (to_sql name chunk (snd (write_all to_sql ws1 db)))
          \<longrightarrow> write_all to_sql (ws1 @ (name, chunk) # ws2) db
                = (False, snd (to_sql name chunk (snd (write_all to_sql ws1 db))))"
    by (simp add: write_all_stops_at_failure)
  have off: "load_with_batch_processing False to_sql to_datetime df batch_size db = (False, db)"
    by (simp add: load_with_batch_processing_def)
  show ?thesis
    by (intro conjI load_with_batch_processing_plan [OF assms] off length_chunks [OF n]
        concat_chunks [OF n] nth stop)
qed

theorem batches_written_in_dependency_order_witness:
  "(0::int) < 2
   \<and> map_prod id recorded_sizes
       (load_with_batch_processing True (recording (\<lambda>issued. True)) Some
          (rows_of (transform sample_parser threshold_batch)) 2 [])
       = (True, [(''customers'', 1), (''products'', 2), (''products'', 1),
                 (''transactions'', 2), (''transactions'', 2)])
   \<and> map_prod id recorded_sizes
       (load_with_batch_processing True (recording (\<lambda>issued. length issued \<noteq> 3)) Some
          (rows_of (transform sample_parser threshold_batch)) 2 [])
       = (False, [(''customers'', 1), (''products'', 2), (''products'', 1)])"
  using batches_written_in_dependency_order
    [of 2 "recording (\<lambda>issued. True)" Some "rows_of (transform sample_parser threshold_batch)" "[]"]
  by (simp add: rows_of_def transform_defs sample_defs load_defs load_batches_from.simps)


section \<open>Dates that overflow\<close>

text \<open>
  Claim C6 says that \<^verbatim>\<open>standardize_date\<close> returns a date or null on every input and
  never raises. The first \<^verbatim>\<open>try\<close> catches \<^verbatim>\<open>ValueError\<close> and \<^verbatim>\<open>TypeError\<close> only. On
  the text \<^verbatim>\<open>9999999999\<close> the parser raises \<^verbatim>\<open>OverflowError\<close>, which leaves
  \<^verbatim>\<open>standardize_date\<close>, then \<^verbatim>\<open>transform\<close>, then \<^verbatim>\<open>ETLPipeline.run\<close>.
\<close>

theorem overflow_of_first_parse_leaves_standardize_date:
  "standardize_date sample_parser (Some ''9999999999'') = Inl OverflowError
   \<and> transform sample_parser overflow_date_batch = Inl OverflowError
   \<and> fst (run True (JsonArray overflow_date_batch) sample_parser True to_sql to_datetime
            1000 True db) = Inl OverflowError"
  by (simp add: run_def transform_defs sample_defs)

text \<open>
  The three example values of the claim hold for every parser that answers on these texts
  as dateutil does, and the only way out of \<^verbatim>\<open>standardize_date\<close> by an exception is
  an exception of the first parse other than \<^verbatim>\<open>ValueError\<close> and \<^verbatim>\<open>TypeError\<close>.
\<close>

lemma standardize_date_iso:
  "parse ''2023-07-22'' = Inr ''2023-07-22''
   \<Longrightarrow> standardize_date parse (Some ''2023-07-22'') = Inr (Some ''2023-07-22'')"
  by (simp add: standardize_date_def text_defs)

lemma split_year_rewrite: "sub_whitespace (sub_split_year ''20 23-07-22'') = ''2023-07-22''"
  by (simp add: text_defs)

lemma standardize_date_split_year:
  "parse ''20 23-07-22'' = Inl ValueError \<Longrightarrow> parse ''2023-07-22'' = Inr ''2023-07-22''
   \<Longrightarrow> standardize_date parse (Some ''20 23-07-22'') = Inr (Some ''2023-07-22'')"
  by (simp add: standardize_date_def text_defs)

lemma standardize_date_not_a_date:
  "parse ''not a date'' = Inl ValueError \<Longrightarrow> parse ''not-a-date'' = Inl e
   \<Longrightarrow> standardize_date parse (Some ''not a date'') = Inr None"
  by (simp add: standardize_date_def text_defs)

lemma standardize_date_raises_iff:
  "standardize_date parse d = Inl e \<longleftrightarrow>
     (\<exists>s. d = Some s \<and> parse (strip s) = Inl e \<and> e \<noteq> ValueError \<and> e \<noteq> TypeError)"
  by (auto simp: standardize_date_def Let_def split: option.splits sum.splits)


section \<open>Suspicious values\<close>

text \<open>
  Claim C7: in the table \<^verbatim>\<open>transform\<close> returns, \<^verbatim>\<open>has_suspicious_values\<close> is true
  exactly for the rows with \<^verbatim>\<open>quantity > 1000\<close> or \<^verbatim>\<open>price < 0.01\<close> or
  \<^verbatim>\<open>total_value > 100000\<close>, the comparisons strict and false on a null. The rows of
  \<open>threshold_batch\<close> show the thresholds: quantity 1000 is not flagged and 1001 is,
  total value 100000 is not flagged and 100000.01 is.
\<close>

theorem suspicious_flag_matches_thresholds:
  assumes "transform parse data = Inr df" and "r \<in> set df"
  shows "has_suspicious_values r \<longleftrightarrow>
           is_gt (quantity r) 1000 \<or> is_lt (price r) (1 / 100) \<or> is_gt (total_value r) 100000"
proof -
  from assms obtain p where "df = fst (perform_checks p)"
    by (auto simp: transform_def split: sum.splits)
  with assms(2) have "has_suspicious_values r = suspicious r"
    by (simp add: suspicious_flag_of_checked_rows)
  then show ?thesis by (simp add: suspicious_def)
qed

theorem suspicious_flag_matches_thresholds_witness:
  "transform sample_parser threshold_batch
     = Inr (rows_of (transform sample_parser threshold_batch))
   \<and> rows_of (transform sample_parser threshold_batch) ! 1
       \<in> set (rows_of (transform sample_parser threshold_batch))
   \<and> has_suspicious_values (rows_of (transform sample_parser threshold_batch) ! 1)
   \<and> is_gt (quantity (rows_of (transform sample_parser threshold_batch) ! 1)) 1000
   \<and> map (\<lambda>r. (quantity r, total_value r, has_suspicious_values r))
        (rows_of (transform sample_parser threshold_batch))
       = [(Some 1000, Some 1000, False), (Some 1001, Some 1001, True),
          (Some 1, Some 100000, False), (Some 1, Some (10000001 / 100), True)]"
  using suspicious_flag_matches_thresholds
    [of sample_parser threshold_batch "rows_of (transform sample_parser threshold_batch)"
        "rows_of (transform sample_parser threshold_batch) ! 1"]
  by (simp add: rows_of_def transform_defs sample_defs)


section \<open>Records without a product\<close>

text \<open>
  Claim C8 says that normalisation raises nothing for missing product data, also when
  every record of the batch lacks the product mapping. When no record has the key
  \<^verbatim>\<open>product\<close>, the table has neither a column \<^verbatim>\<open>product.id\<close> nor a column
  \<^verbatim>\<open>product\<close>, and \<^verbatim>\<open>df['product']\<close> in the second branch of \<^verbatim>\<open>_initial_prep\<close> raises
  \<^verbatim>\<open>KeyError\<close>, whatever the date parser does.
\<close>

theorem batch_without_product_key_raises:
  "initial_prep parse no_product_batch = Inl (KeyError ''product'')
   \<and> transform parse no_product_batch = Inl (KeyError ''product'')
   \<and> fst (run True (JsonArray no_product_batch) parse True to_sql to_datetime 1000 True db)
       = Inl (KeyError ''product'')"
  by (simp add: run_def transform_def initial_prep_def flatten_product_def is_mapping_def
      sample_defs)


section \<open>Checks that only count\<close>

text \<open>
  Claim C9: the checks for duplicate transaction ids, missing product info, invalid
  prices and missing transaction ids return the table as they got it, and the
  transactions projection has one row for each row of the table, in the same order, with
  that row's transaction id and flags; so for a table \<^verbatim>\<open>transform\<close> returned it has as
  many rows as the input has records.
\<close>

theorem diagnostic_checks_and_projection_keep_rows:
  "fst (check_duplicate_transactions df) = df
   \<and> fst (check_missing_product_info df) = df
   \<and> fst (check_invalid_prices df) = df
   \<and> fst (check_missing_transaction_ids df) = df
   \<and> length (prepare_transactions_df to_datetime df) = length df
   \<and> map transaction_id (prepare_transactions_df to_datetime df) = map transaction_id df
   \<and> map tx_has_missing_customer (prepare_transactions_df to_datetime df)
        = map has_missing_customer df
   \<and> map tx_had_negative_quantity (prepare_transactions_df to_datetime df)
        = map had_negative_quantity df
   \<and> map tx_had_date_format_issue (prepare_transactions_df to_datetime df)
        = map had_date_format_issue df
   \<and> map tx_has_suspicious_values (prepare_transactions_df to_datetime df)
        = map has_suspicious_values df
   \<and> (transform parse data = Inr df
        \<longrightarrow> length (prepare_transactions_df to_datetime df) = length data)"
proof -
  have "transform parse data = Inr df
        \<longrightarrow> length (prepare_transactions_df to_datetime df) = length data"
    by (auto simp: prepare_transactions_df_def dest: transform_length)
  then show ?thesis
    by (simp add: check_duplicate_transactions_table check_missing_product_info_table
        check_invalid_prices_table check_missing_transaction_ids_table
        prepare_transactions_df_def transaction_of_def comp_def)
qed

theorem diagnostic_checks_and_projection_keep_rows_witness:
  "transform sample_parser mixed_dates_batch
     = Inr (rows_of (transform sample_parser mixed_dates_batch))
   \<and> length (prepare_transactions_df Some (rows_of (transform sample_parser mixed_dates_batch)))
       = length mixed_dates_batch
   \<and> map transaction_id
       (prepare_transactions_df Some (rows_of (transform sample_parser mixed_dates_batch)))
       = [Some ''T004'', Some ''T005'']"
  using diagnostic_checks_and_projection_keep_rows
    [of "rows_of (transform sample_parser mixed_dates_batch)" Some sample_parser mixed_dates_batch]
  by (simp add: rows_of_def transform_defs sample_defs)


section \<open>An empty input\<close>

text \<open>
  Claim C10: for a file that holds a JSON array with no element, \<^verbatim>\<open>from_json\<close>
  returns the empty list and \<^verbatim>\<open>ETLPipeline.run\<close> returns \<^verbatim>\<open>False\<close> having entered
  neither the transform nor the load stage; a missing file and a malformed file give the
  same list and the same run, so the three cannot be told apart from what the pipeline
  returns.
\<close>

theorem empty_array_aborts_like_missing_file:
  "from_json (JsonArray []) = []
   \<and> from_json FileNotFound = []
   \<and> from_json MalformedContent = []
   \<and> run schema_ok (JsonArray []) parse engine_ok to_sql to_datetime batch_size run_analytics db
       = (Inr False, if schema_ok then [SchemaSetup, Extraction] else [SchemaSetup], db)
   \<and> run schema_ok FileNotFound parse engine_ok to_sql to_datetime batch_size run_analytics db
       = run schema_ok (JsonArray []) parse engine_ok to_sql to_datetime batch_size run_analytics db
   \<and> run schema_ok MalformedContent parse engine_ok to_sql to_datetime batch_size run_analytics db
       = run schema_ok (JsonArray []) parse engine_ok to_sql to_datetime batch_size run_analytics db"
  by (simp add: run_def)

end
